theory Spec2Isabelle
  imports Main "HOL-Library.Word"
begin

section \<open>prefix\_tools: prefix sums and difference arrays\<close>

text \<open>
  A shallow embedding of the header \<^verbatim>\<open>prefix_tools.hpp\<close>: the class templates
  \<^verbatim>\<open>PrefixSum1D<T>\<close> and \<^verbatim>\<open>DiffArray1D<T>\<close>.

  \<^item> A \<^verbatim>\<open>std::vector<T>\<close> is a list. \<^verbatim>\<open>v[i]\<close> is unchecked in C++: an index
    outside the vector is undefined behaviour. The model makes every such access a
    branch that returns \<open>Inl OutOfBounds\<close>.
  \<^item> The element type \<^verbatim>\<open>T\<close> is a type variable; \<^verbatim>\<open>T{}\<close> is \<open>0\<close>, and
    \<^verbatim>\<open>+\<close>, \<^verbatim>\<open>-\<close> are the operations of the type. The theorems take \<^verbatim>\<open>T\<close> to be
    a commutative additive group (\<open>ab_group_add\<close>): the integers, or the machine
    words with their wrap-around.
  \<^item> \<^verbatim>\<open>std::size_t\<close> is the 64-bit unsigned word where the code computes with a
    size that is an argument or a field (\<^verbatim>\<open>n_ + 1\<close> in \<^verbatim>\<open>DiffArray1D::reset\<close>).
    In \<^verbatim>\<open>PrefixSum1D\<close> every size is the size of a vector that exists, which is
    below \<^verbatim>\<open>max_size()\<close> and so below \<^verbatim>\<open>SIZE_MAX\<close>: \<^verbatim>\<open>values.size() + 1\<close>
    and \<^verbatim>\<open>i + 1\<close> do not wrap, and indices are natural numbers there.
  \<^item> Memory is unbounded: an allocation never fails.
  \<^item> Isabelle reserves names that end in an underscore, so the data members
    \<^verbatim>\<open>prefix_\<close>, \<^verbatim>\<open>n_\<close> and \<^verbatim>\<open>diff_\<close> are the fields \<open>m_prefix\<close>, \<open>m_n\<close>
    and \<open>m_diff\<close>. The member functions carry the name of their class as a prefix.
\<close>

datatype error = OutOfBounds

type_synonym size_t = "64 word"

subsection \<open>PrefixSum1D\<close>

record 'a PrefixSum1D =
  m_prefix :: "'a list"

text \<open>\<^verbatim>\<open>PrefixSum1D() = default\<close>: the member initialiser \<^verbatim>\<open>prefix_{}\<close> leaves the
  vector empty.\<close>

definition PrefixSum1D_default :: "'a PrefixSum1D" where
  "PrefixSum1D_default = \<lparr>m_prefix = []\<rparr>"

text \<open>The loop of \<^verbatim>\<open>build\<close>:
  \<^verbatim>\<open>for (i = 0; i < values.size(); ++i) prefix_[i + 1] = prefix_[i] + values[i];\<close>\<close>

function PrefixSum1D_build_loop :: "'a::plus list \<Rightarrow> nat \<Rightarrow> 'a list \<Rightarrow> error + 'a list" where
  "PrefixSum1D_build_loop values i p =
     (if i < length values then
        (if i < length p \<and> i + 1 < length p
         then PrefixSum1D_build_loop values (i + 1) (p[i + 1 := p ! i + values ! i])
         else Inl OutOfBounds)
      else Inr p)"
  by pat_completeness auto
termination
  by (relation "measure (\<lambda>(values, i, p). length values - i)") auto

declare PrefixSum1D_build_loop.simps [simp del]

text \<open>\<^verbatim>\<open>build\<close>: \<^verbatim>\<open>prefix_.assign(values.size() + 1, T{})\<close>, then the loop.\<close>

definition PrefixSum1D_build ::
  "'a::{zero,plus} PrefixSum1D \<Rightarrow> 'a list \<Rightarrow> error + 'a PrefixSum1D" where
  "PrefixSum1D_build ps values =
     (case PrefixSum1D_build_loop values 0 (replicate (length values + 1) 0) of
        Inl e \<Rightarrow> Inl e
      | Inr p \<Rightarrow> Inr (ps\<lparr>m_prefix := p\<rparr>))"

text \<open>The constructor \<^verbatim>\<open>PrefixSum1D(values)\<close> calls \<^verbatim>\<open>build\<close> on the
  default-initialised object.\<close>

definition PrefixSum1D_of :: "'a::{zero,plus} list \<Rightarrow> error + 'a PrefixSum1D" where
  "PrefixSum1D_of values = PrefixSum1D_build PrefixSum1D_default values"

text \<open>\<^verbatim>\<open>range_sum(l, r)\<close>: \<^verbatim>\<open>return prefix_[r] - prefix_[l];\<close>\<close>

definition PrefixSum1D_range_sum :: "'a::minus PrefixSum1D \<Rightarrow> nat \<Rightarrow> nat \<Rightarrow> error + 'a" where
  "PrefixSum1D_range_sum ps l r =
     (if r < length (m_prefix ps) \<and> l < length (m_prefix ps)
      then Inr (m_prefix ps ! r - m_prefix ps ! l)
      else Inl OutOfBounds)"

text \<open>\<^verbatim>\<open>size()\<close>: \<^verbatim>\<open>return prefix_.empty() ? 0 : (prefix_.size() - 1);\<close>\<close>

definition PrefixSum1D_size :: "'a PrefixSum1D \<Rightarrow> nat" where
  "PrefixSum1D_size ps = (if m_prefix ps = [] then 0 else length (m_prefix ps) - 1)"

text \<open>\<^verbatim>\<open>prefix()\<close>: \<^verbatim>\<open>return prefix_;\<close>\<close>

definition PrefixSum1D_prefix :: "'a PrefixSum1D \<Rightarrow> 'a list" where
  "PrefixSum1D_prefix ps = m_prefix ps"

subsection \<open>DiffArray1D\<close>

record 'a DiffArray1D =
  m_n :: size_t
  m_diff :: "'a list"

text \<open>\<^verbatim>\<open>DiffArray1D() = default\<close>: the member initialisers \<^verbatim>\<open>n_{0}\<close> and
  \<^verbatim>\<open>diff_{}\<close>.\<close>

definition DiffArray1D_default :: "'a DiffArray1D" where
  "DiffArray1D_default = \<lparr>m_n = 0, m_diff = []\<rparr>"

text \<open>\<^verbatim>\<open>reset(n)\<close>: \<^verbatim>\<open>n_ = n; diff_.assign(n_ + 1, T{});\<close> The sum \<^verbatim>\<open>n_ + 1\<close> is
  computed in \<^verbatim>\<open>std::size_t\<close>.\<close>

definition DiffArray1D_reset :: "'a::zero DiffArray1D \<Rightarrow> size_t \<Rightarrow> 'a DiffArray1D" where
  "DiffArray1D_reset d n = d\<lparr>m_n := n, m_diff := replicate (unat (n + 1)) 0\<rparr>"

text \<open>The constructor \<^verbatim>\<open>DiffArray1D(n)\<close> calls \<^verbatim>\<open>reset(n)\<close> on the
  default-initialised object.\<close>

definition DiffArray1D_sized :: "size_t \<Rightarrow> 'a::zero DiffArray1D" where
  "DiffArray1D_sized n = DiffArray1D_reset DiffArray1D_default n"

text \<open>\<^verbatim>\<open>range_add(l, r, delta)\<close>:
  \<^verbatim>\<open>diff_[l] = diff_[l] + delta; diff_[r] = diff_[r] - delta;\<close>\<close>

definition DiffArray1D_range_add ::
  "'a::{plus,minus} DiffArray1D \<Rightarrow> size_t \<Rightarrow> size_t \<Rightarrow> 'a \<Rightarrow> error + 'a DiffArray1D" where
  "DiffArray1D_range_add d l r delta =
     (if unat l < length (m_diff d) then
        (let d1 = d\<lparr>m_diff := (m_diff d)[unat l := m_diff d ! unat l + delta]\<rparr>
         in if unat r < length (m_diff d1)
            then Inr (d1\<lparr>m_diff := (m_diff d1)[unat r := m_diff d1 ! unat r - delta]\<rparr>)
            else Inl OutOfBounds)
      else Inl OutOfBounds)"

text \<open>The loop of \<^verbatim>\<open>build\<close>:
  \<^verbatim>\<open>for (i = 0; i < n_; ++i) { cur = cur + diff_[i]; out[i] = cur; }\<close>
  The member function is \<^verbatim>\<open>const\<close>: the loop reads \<^verbatim>\<open>n_\<close> and \<^verbatim>\<open>diff_\<close> and
  writes the locals \<^verbatim>\<open>cur\<close> and \<^verbatim>\<open>out\<close> only.\<close>

function DiffArray1D_build_loop ::
  "'a::plus DiffArray1D \<Rightarrow> nat \<Rightarrow> 'a \<Rightarrow> 'a list \<Rightarrow> error + 'a list" where
  "DiffArray1D_build_loop d i cur out =
     (if i < unat (m_n d) then
        (if i < length (m_diff d) \<and> i < length out
         then (let cur' = cur + m_diff d ! i
               in DiffArray1D_build_loop d (i + 1) cur' (out[i := cur']))
         else Inl OutOfBounds)
      else Inr out)"
  by pat_completeness auto
termination
  by (relation "measure (\<lambda>(d, i, cur, out). unat (m_n d) - i)") auto

declare DiffArray1D_build_loop.simps [simp del]

text \<open>\<^verbatim>\<open>build()\<close>: \<^verbatim>\<open>out.resize(n_, T{}); T cur{};\<close> then the loop;
  \<^verbatim>\<open>return out;\<close>\<close>

definition DiffArray1D_build :: "'a::{zero,plus} DiffArray1D \<Rightarrow> error + 'a list" where
  "DiffArray1D_build d = DiffArray1D_build_loop d 0 0 (replicate (unat (m_n d)) 0)"

text \<open>\<^verbatim>\<open>size()\<close>: \<^verbatim>\<open>return n_;\<close> and \<^verbatim>\<open>diff()\<close>: \<^verbatim>\<open>return diff_;\<close>\<close>

definition DiffArray1D_size :: "'a DiffArray1D \<Rightarrow> size_t" where
  "DiffArray1D_size d = m_n d"

definition DiffArray1D_diff :: "'a DiffArray1D \<Rightarrow> 'a list" where
  "DiffArray1D_diff d = m_diff d"

subsection \<open>Sequences of calls\<close>

text \<open>A caller's straight-line sequence of \<^verbatim>\<open>range_add\<close> calls on one object, each
  given by its arguments \<open>(l, r, delta)\<close>. The first call that leaves the table ends
  the run.\<close>

fun DiffArray1D_range_adds ::
  "'a::{plus,minus} DiffArray1D \<Rightarrow> (size_t \<times> size_t \<times> 'a) list \<Rightarrow> error + 'a DiffArray1D" where
  "DiffArray1D_range_adds d [] = Inr d"
| "DiffArray1D_range_adds d ((l, r, delta) # us) =
     (case DiffArray1D_range_add d l r delta of
        Inl e \<Rightarrow> Inl e
      | Inr d' \<Rightarrow> DiffArray1D_range_adds d' us)"

text \<open>A caller's sequence of any calls of the public interface on one object. A run
  returns the final object and the vectors that the \<^verbatim>\<open>build()\<close> calls returned, in
  order.\<close>

datatype 'a call = Reset size_t | RangeAdd size_t size_t 'a | Build

fun is_Build :: "'a call \<Rightarrow> bool" where
  "is_Build Build = True"
| "is_Build _ = False"

fun DiffArray1D_run ::
  "'a::{zero,plus,minus} DiffArray1D \<Rightarrow> 'a call list \<Rightarrow> error + ('a DiffArray1D \<times> 'a list list)" where
  "DiffArray1D_run d [] = Inr (d, [])"
| "DiffArray1D_run d (Reset n # cs) = DiffArray1D_run (DiffArray1D_reset d n) cs"
| "DiffArray1D_run d (RangeAdd l r delta # cs) =
     (case DiffArray1D_range_add d l r delta of
        Inl e \<Rightarrow> Inl e
      | Inr d' \<Rightarrow> DiffArray1D_run d' cs)"
| "DiffArray1D_run d (Build # cs) =
     (case DiffArray1D_build d of
        Inl e \<Rightarrow> Inl e
      | Inr out \<Rightarrow>
          (case DiffArray1D_run d cs of
             Inl e \<Rightarrow> Inl e
           | Inr (d', outs) \<Rightarrow> Inr (d', out # outs)))"

text \<open>The caller of the tests and examples: construct with a size, apply the updates,
  then \<^verbatim>\<open>build()\<close>.\<close>

definition DiffArray1D_apply ::
  "size_t \<Rightarrow> (size_t \<times> size_t \<times> 'a::{zero,plus,minus}) list \<Rightarrow> error + 'a list" where
  "DiffArray1D_apply n us =
     (case DiffArray1D_range_adds (DiffArray1D_sized n) us of
        Inl e \<Rightarrow> Inl e
      | Inr d \<Rightarrow> DiffArray1D_build d)"

subsection \<open>The reference model of the specification\<close>

text \<open>The brute-force model of the specification's difference-array law: entry \<open>i\<close>
  is the sum of \<open>v\<close> over the updates \<open>(l, r, v)\<close> whose half-open interval
  \<open>[l, r)\<close> contains \<open>i\<close>.\<close>

definition brute_force_reference :: "nat \<Rightarrow> (size_t \<times> size_t \<times> 'a::monoid_add) list \<Rightarrow> 'a list" where
  "brute_force_reference n us =
     map (\<lambda>i. sum_list (map (\<lambda>(l, r, v). if unat l \<le> i \<and> i < unat r then v else 0) us)) [0..<n]"

text \<open>The running sums of the first \<open>n\<close> entries of a table, for the proofs.\<close>

definition running_sums :: "nat \<Rightarrow> 'a::monoid_add list \<Rightarrow> 'a list" where
  "running_sums n xs = map (\<lambda>k. sum_list (take (Suc k) xs)) [0..<n]"

section \<open>Properties of PrefixSum1D\<close>

lemma sum_list_take_Suc:
  fixes xs :: "'a::monoid_add list"
  shows "i < length xs \<Longrightarrow> sum_list (take (Suc i) xs) = sum_list (take i xs) + xs ! i"
  by (simp add: take_Suc_conv_app_nth)

text \<open>The loop invariant: the entries up to \<open>i\<close> are the sums of the leading values;
  the loop ends with all of them so, and never reads or writes outside the table.\<close>

lemma PrefixSum1D_build_loop_table:
  fixes vs :: "'a::monoid_add list"
  assumes "length p = length vs + 1" "i \<le> length vs"
    and "\<forall>k\<le>i. p ! k = sum_list (take k vs)"
  shows "\<exists>q. PrefixSum1D_build_loop vs i p = Inr q \<and> length q = length vs + 1
            \<and> (\<forall>k\<le>length vs. q ! k = sum_list (take k vs))"
  using assms
proof (induction vs i p rule: PrefixSum1D_build_loop.induct)
  case (1 vs i p)
  show ?case
  proof (cases "i < length vs")
    case False
    with "1.prems" have "i = length vs" by simp
    with "1.prems" show ?thesis
      by (subst PrefixSum1D_build_loop.simps) simp
  next
    case True
    let ?p = "p[i + 1 := p ! i + vs ! i]"
    have inb: "i < length p \<and> i + 1 < length p"
      using True "1.prems"(1) by simp
    have len: "length ?p = length vs + 1"
      using "1.prems"(1) by simp
    have inv: "\<forall>k\<le>i + 1. ?p ! k = sum_list (take k vs)"
    proof (intro allI impI)
      fix k assume k: "k \<le> i + 1"
      show "?p ! k = sum_list (take k vs)"
      proof (cases "k = i + 1")
        case True
        have written: "?p ! k = p ! i + vs ! i"
          using True inb by simp
        have before: "p ! i = sum_list (take i vs)"
          using "1.prems"(3) by simp
        have "sum_list (take k vs) = sum_list (take i vs) + vs ! i"
          using True \<open>i < length vs\<close> by (simp add: sum_list_take_Suc)
        with written before show ?thesis by simp
      next
        case False
        with k have "k \<le> i" by simp
        with "1.prems"(3) False show ?thesis by simp
      qed
    qed
    have "\<exists>q. PrefixSum1D_build_loop vs (i + 1) ?p = Inr q
            \<and> length q = length vs + 1
            \<and> (\<forall>k\<le>length vs. q ! k = sum_list (take k vs))"
      using "1.IH" [OF True inb len _ inv] True by simp
    then show ?thesis
      using True inb by (subst PrefixSum1D_build_loop.simps) simp
  qed
qed

lemma PrefixSum1D_build_table:
  fixes vs :: "'a::monoid_add list"
  shows "\<exists>q. PrefixSum1D_build ps vs = Inr (ps\<lparr>m_prefix := q\<rparr>)
            \<and> length q = length vs + 1
            \<and> (\<forall>k\<le>length vs. q ! k = sum_list (take k vs))"
proof -
  have "\<exists>q. PrefixSum1D_build_loop vs 0 (replicate (length vs + 1) 0) = Inr q
            \<and> length q = length vs + 1
            \<and> (\<forall>k\<le>length vs. q ! k = sum_list (take k vs))"
    by (rule PrefixSum1D_build_loop_table) simp_all
  then show ?thesis
    by (auto simp: PrefixSum1D_build_def)
qed

lemma PrefixSum1D_built_shape:
  fixes vs :: "'a::monoid_add list"
  assumes "PrefixSum1D_build ps0 vs = Inr ps"
  shows "length (m_prefix ps) = length vs + 1"
    and "PrefixSum1D_size ps = length vs"
    and "k \<le> length vs \<Longrightarrow> m_prefix ps ! k = sum_list (take k vs)"
proof -
  obtain q where q: "PrefixSum1D_build ps0 vs = Inr (ps0\<lparr>m_prefix := q\<rparr>)"
    "length q = length vs + 1" "\<forall>k\<le>length vs. q ! k = sum_list (take k vs)"
    using PrefixSum1D_build_table [of ps0 vs] by blast
  from q(1) assms have ps: "ps = ps0\<lparr>m_prefix := q\<rparr>" by simp
  show "length (m_prefix ps) = length vs + 1"
    using ps q(2) by simp
  then show "PrefixSum1D_size ps = length vs"
    by (auto simp: PrefixSum1D_size_def)
  show "k \<le> length vs \<Longrightarrow> m_prefix ps ! k = sum_list (take k vs)"
    using ps q(3) by simp
qed

text \<open>
  \<^bold>\<open>C1.\<close> For every input sequence \<open>vs\<close> of length \<open>n\<close> and every prior state,
  \<^verbatim>\<open>build(vs)\<close> returns, and the table it leaves has length \<open>n + 1\<close>, starts with
  \<open>0\<close> and satisfies \<open>prefix[i+1] = prefix[i] + vs[i]\<close> for every \<open>i < n\<close>; then
  \<^verbatim>\<open>size()\<close> is \<open>n\<close> and \<^verbatim>\<open>range_sum(0, size())\<close> is the sum of all elements.
\<close>

theorem PrefixSum1D_build_correct:
  fixes vs :: "'a::ab_group_add list"
  shows "\<exists>b. PrefixSum1D_build ps vs = Inr b
           \<and> length (PrefixSum1D_prefix b) = length vs + 1
           \<and> PrefixSum1D_prefix b ! 0 = 0
           \<and> (\<forall>i<length vs. PrefixSum1D_prefix b ! (i + 1) = PrefixSum1D_prefix b ! i + vs ! i)
           \<and> PrefixSum1D_size b = length vs
           \<and> PrefixSum1D_range_sum b 0 (PrefixSum1D_size b) = Inr (sum_list vs)"
proof -
  obtain b where b: "PrefixSum1D_build ps vs = Inr b"
    using PrefixSum1D_build_table [of ps vs] by blast
  note shape = PrefixSum1D_built_shape [OF b]
  have zero: "m_prefix b ! 0 = 0"
    using shape(3) [of 0] by simp
  have step: "m_prefix b ! (i + 1) = m_prefix b ! i + vs ! i" if "i < length vs" for i
    using shape(3) [of "i + 1"] shape(3) [of i] that by (simp add: sum_list_take_Suc)
  have total: "m_prefix b ! length vs = sum_list vs"
    using shape(3) [of "length vs"] by simp
  have "PrefixSum1D_range_sum b 0 (PrefixSum1D_size b) = Inr (sum_list vs)"
    using shape(1,2) zero total by (simp add: PrefixSum1D_range_sum_def)
  with b shape(1,2) zero step show ?thesis
    by (auto simp: PrefixSum1D_prefix_def)
qed

theorem PrefixSum1D_build_correct_witness:
  "(3::nat) < length [1, 2, 3, 4, 5 :: int]
   \<and> (\<exists>b. PrefixSum1D_build PrefixSum1D_default [1, 2, 3, 4, 5 :: int] = Inr b
          \<and> length (PrefixSum1D_prefix b) = 6
          \<and> PrefixSum1D_prefix b ! 4 = PrefixSum1D_prefix b ! 3 + 4
          \<and> PrefixSum1D_range_sum b 0 5 = Inr 15)"
proof -
  obtain b where b: "PrefixSum1D_build PrefixSum1D_default [1, 2, 3, 4, 5 :: int] = Inr b"
    "length (PrefixSum1D_prefix b) = length [1, 2, 3, 4, 5 :: int] + 1"
    "\<forall>i<length [1, 2, 3, 4, 5 :: int].
       PrefixSum1D_prefix b ! (i + 1) = PrefixSum1D_prefix b ! i + [1, 2, 3, 4, 5 :: int] ! i"
    "PrefixSum1D_size b = length [1, 2, 3, 4, 5 :: int]"
    "PrefixSum1D_range_sum b 0 (PrefixSum1D_size b) = Inr (sum_list [1, 2, 3, 4, 5 :: int])"
    using PrefixSum1D_build_correct [of PrefixSum1D_default "[1, 2, 3, 4, 5 :: int]"] by blast
  have "PrefixSum1D_prefix b ! (3 + 1) = PrefixSum1D_prefix b ! 3 + [1, 2, 3, 4, 5 :: int] ! 3"
    using b(3) [rule_format, of 3] by simp
  then have step: "PrefixSum1D_prefix b ! 4 = PrefixSum1D_prefix b ! 3 + 4"
    by simp
  have len: "length (PrefixSum1D_prefix b) = 6"
    using b(2) by simp
  have "PrefixSum1D_size b = 5"
    using b(4) by simp
  with b(5) have total: "PrefixSum1D_range_sum b 0 5 = Inr 15"
    by simp
  from b(1) len step total show ?thesis by simp
qed

text \<open>
  \<^bold>\<open>C3.\<close> After \<^verbatim>\<open>build\<close>, for all \<open>a \<le> b \<le> c \<le> size()\<close> the three queries return and
  \<open>range_sum(a, c) = range_sum(a, b) + range_sum(b, c)\<close>.
\<close>

theorem PrefixSum1D_decomposition:
  fixes vs :: "'a::ab_group_add list"
  assumes "PrefixSum1D_build ps0 vs = Inr ps"
    and "a \<le> b" and "b \<le> c" and "c \<le> PrefixSum1D_size ps"
  shows "\<exists>x y. PrefixSum1D_range_sum ps a b = Inr x
             \<and> PrefixSum1D_range_sum ps b c = Inr y
             \<and> PrefixSum1D_range_sum ps a c = Inr (x + y)"
proof -
  note shape = PrefixSum1D_built_shape(1,2) [OF assms(1)]
  have inb: "a < length (m_prefix ps)" "b < length (m_prefix ps)" "c < length (m_prefix ps)"
    using assms(2-4) shape by simp_all
  have "m_prefix ps ! c - m_prefix ps ! a
      = (m_prefix ps ! b - m_prefix ps ! a) + (m_prefix ps ! c - m_prefix ps ! b)"
    by (simp add: algebra_simps)
  with inb show ?thesis
    by (simp add: PrefixSum1D_range_sum_def)
qed

theorem PrefixSum1D_decomposition_witness:
  "\<exists>ps. PrefixSum1D_build PrefixSum1D_default [1, 2, 3, 4, 5 :: int] = Inr ps
        \<and> (1::nat) \<le> 2 \<and> (2::nat) \<le> 4 \<and> 4 \<le> PrefixSum1D_size ps
        \<and> (\<exists>x y. PrefixSum1D_range_sum ps 1 2 = Inr x
                \<and> PrefixSum1D_range_sum ps 2 4 = Inr y
                \<and> PrefixSum1D_range_sum ps 1 4 = Inr (x + y))"
proof -
  obtain ps where ps: "PrefixSum1D_build PrefixSum1D_default [1, 2, 3, 4, 5 :: int] = Inr ps"
    using PrefixSum1D_build_table [of PrefixSum1D_default "[1, 2, 3, 4, 5 :: int]"] by blast
  have size: "4 \<le> PrefixSum1D_size ps"
    using PrefixSum1D_built_shape(2) [OF ps] by simp
  have "\<exists>x y. PrefixSum1D_range_sum ps 1 2 = Inr x
             \<and> PrefixSum1D_range_sum ps 2 4 = Inr y
             \<and> PrefixSum1D_range_sum ps 1 4 = Inr (x + y)"
    using PrefixSum1D_decomposition [OF ps _ _ size, of 1 2] by simp
  with ps size show ?thesis by auto
qed

text \<open>
  \<^bold>\<open>C10.\<close> After \<^verbatim>\<open>build\<close>, for all \<open>l \<le> r \<le> size()\<close> the swapped query
  \<^verbatim>\<open>range_sum(r, l)\<close> reads inside the table and returns the additive inverse of
  \<^verbatim>\<open>range_sum(l, r)\<close>.
\<close>

theorem PrefixSum1D_swapped:
  fixes vs :: "'a::ab_group_add list"
  assumes "PrefixSum1D_build ps0 vs = Inr ps"
    and "l \<le> r" and "r \<le> PrefixSum1D_size ps"
  shows "\<exists>x. PrefixSum1D_range_sum ps l r = Inr x \<and> PrefixSum1D_range_sum ps r l = Inr (- x)"
proof -
  note shape = PrefixSum1D_built_shape(1,2) [OF assms(1)]
  have "l < length (m_prefix ps)" "r < length (m_prefix ps)"
    using assms(2,3) shape by simp_all
  then show ?thesis
    by (simp add: PrefixSum1D_range_sum_def)
qed

theorem PrefixSum1D_swapped_witness:
  "\<exists>ps. PrefixSum1D_build PrefixSum1D_default [1, 2, 3, 4, 5 :: int] = Inr ps
        \<and> (1::nat) \<le> 4 \<and> 4 \<le> PrefixSum1D_size ps
        \<and> (\<exists>x. PrefixSum1D_range_sum ps 1 4 = Inr x \<and> PrefixSum1D_range_sum ps 4 1 = Inr (- x))"
proof -
  obtain ps where ps: "PrefixSum1D_build PrefixSum1D_default [1, 2, 3, 4, 5 :: int] = Inr ps"
    using PrefixSum1D_build_table [of PrefixSum1D_default "[1, 2, 3, 4, 5 :: int]"] by blast
  have size: "4 \<le> PrefixSum1D_size ps"
    using PrefixSum1D_built_shape(2) [OF ps] by simp
  have "\<exists>x. PrefixSum1D_range_sum ps 1 4 = Inr x \<and> PrefixSum1D_range_sum ps 4 1 = Inr (- x)"
    using PrefixSum1D_swapped [OF ps _ size, of 1] by simp
  with ps size show ?thesis by auto
qed

section \<open>Properties of DiffArray1D\<close>

lemma unat_succ:
  fixes n :: size_t
  assumes "n \<noteq> - 1"
  shows "unat (n + 1) = unat n + 1"
proof -
  have "n + 1 \<noteq> 0"
    using assms max_word_wrap [of n] by blast
  then have "1 + n \<noteq> 0"
    by (simp add: add.commute)
  then have "unat (1 + n) = Suc (unat n)"
    by (rule unatSuc)
  then show ?thesis
    by (simp add: add.commute)
qed

lemma sum_list_update_group:
  fixes xs :: "'a::ab_group_add list"
  shows "k < length xs \<Longrightarrow> sum_list (xs[k := x]) = sum_list xs + (x - xs ! k)"
proof (induction xs arbitrary: k)
  case Nil
  then show ?case by simp
next
  case (Cons a xs)
  then show ?case by (cases k) (simp_all add: algebra_simps)
qed

lemma sum_list_take_update:
  fixes xs :: "'a::ab_group_add list"
  assumes "j < length xs"
  shows "sum_list (take m (xs[j := y])) = sum_list (take m xs) + (if j < m then y - xs ! j else 0)"
proof (cases "j < m")
  case True
  with assms have "j < length (take m xs)" by simp
  then have "sum_list ((take m xs)[j := y]) = sum_list (take m xs) + (y - take m xs ! j)"
    by (rule sum_list_update_group)
  with True show ?thesis by (simp add: take_update_swap)
next
  case False
  then have "take m (xs[j := y]) = take m xs"
    by simp
  with False show ?thesis by simp
qed

text \<open>The loop of \<^verbatim>\<open>build()\<close>: when the table has at least \<open>n_\<close> entries, every read
  is inside it and the output holds the running sums.\<close>

lemma DiffArray1D_build_loop_sums:
  fixes d :: "'a::monoid_add DiffArray1D"
  assumes "unat (m_n d) \<le> length (m_diff d)" "length out = unat (m_n d)" "i \<le> unat (m_n d)"
    and "cur = sum_list (take i (m_diff d))"
    and "\<forall>k<i. out ! k = sum_list (take (Suc k) (m_diff d))"
  shows "\<exists>res. DiffArray1D_build_loop d i cur out = Inr res \<and> length res = unat (m_n d)
            \<and> (\<forall>k<unat (m_n d). res ! k = sum_list (take (Suc k) (m_diff d)))"
  using assms
proof (induction d i cur out rule: DiffArray1D_build_loop.induct)
  case (1 d i cur out)
  show ?case
  proof (cases "i < unat (m_n d)")
    case False
    with "1.prems" have "i = unat (m_n d)" by simp
    with "1.prems" show ?thesis
      by (subst DiffArray1D_build_loop.simps) simp
  next
    case True
    let ?cur = "cur + m_diff d ! i"
    let ?out = "out[i := ?cur]"
    have inb: "i < length (m_diff d) \<and> i < length out"
      using True "1.prems"(1,2) by simp
    have cur: "?cur = sum_list (take (i + 1) (m_diff d))"
      using inb "1.prems"(4) by (simp add: sum_list_take_Suc)
    have inv: "\<forall>k<i + 1. ?out ! k = sum_list (take (Suc k) (m_diff d))"
    proof (intro allI impI)
      fix k assume "k < i + 1"
      then consider "k = i" | "k < i" by linarith
      then show "?out ! k = sum_list (take (Suc k) (m_diff d))"
      proof cases
        case 1
        with inb cur show ?thesis by simp
      next
        case 2
        with "1.prems"(5) show ?thesis by simp
      qed
    qed
    have "\<exists>res. DiffArray1D_build_loop d (i + 1) ?cur ?out = Inr res
            \<and> length res = unat (m_n d)
            \<and> (\<forall>k<unat (m_n d). res ! k = sum_list (take (Suc k) (m_diff d)))"
      using "1.IH" [OF True inb refl "1.prems"(1) _ _ cur inv] True "1.prems"(2) by simp
    then show ?thesis
      using True inb by (subst DiffArray1D_build_loop.simps) (simp add: Let_def)
  qed
qed

lemma DiffArray1D_build_sums:
  fixes d :: "'a::monoid_add DiffArray1D"
  assumes "unat (m_n d) \<le> length (m_diff d)"
  shows "DiffArray1D_build d = Inr (running_sums (unat (m_n d)) (m_diff d))"
proof -
  obtain res where res: "DiffArray1D_build_loop d 0 0 (replicate (unat (m_n d)) 0) = Inr res"
    "length res = unat (m_n d)"
    "\<forall>k<unat (m_n d). res ! k = sum_list (take (Suc k) (m_diff d))"
    using DiffArray1D_build_loop_sums [of d "replicate (unat (m_n d)) 0" 0 0] assms
    by auto
  have "res = running_sums (unat (m_n d)) (m_diff d)"
    using res(2,3) by (intro nth_equalityI) (simp_all add: running_sums_def)
  with res(1) show ?thesis
    by (simp add: DiffArray1D_build_def)
qed

text \<open>One \<^verbatim>\<open>range_add\<close> whose two indices are inside the table returns, and its only
  effect is on the two entries.\<close>

lemma DiffArray1D_range_add_effect:
  assumes "unat l < length (m_diff d)" "unat r < length (m_diff d)"
  shows "DiffArray1D_range_add d l r v =
           Inr (d\<lparr>m_diff := (m_diff d)
                  [unat l := m_diff d ! unat l + v,
                   unat r := (m_diff d)[unat l := m_diff d ! unat l + v] ! unat r - v]\<rparr>)"
  using assms by (simp add: DiffArray1D_range_add_def Let_def)

text \<open>The effect of one in-range \<^verbatim>\<open>range_add(l, r, v)\<close> on the running sums: \<open>v\<close> is
  added at the indices of \<open>[l, r)\<close> and nowhere else.\<close>

lemma DiffArray1D_range_add_sums:
  fixes d :: "'a::ab_group_add DiffArray1D"
  assumes "length (m_diff d) = unat (m_n d) + 1" "l \<le> r" "r \<le> m_n d"
  shows "\<exists>d'. DiffArray1D_range_add d l r v = Inr d' \<and> m_n d' = m_n d
            \<and> length (m_diff d') = length (m_diff d)
            \<and> (\<forall>k. sum_list (take (Suc k) (m_diff d'))
                   = sum_list (take (Suc k) (m_diff d))
                     + (if unat l \<le> k \<and> k < unat r then v else 0))"
proof -
  let ?xs = "m_diff d"
  let ?ys = "?xs[unat l := ?xs ! unat l + v]"
  let ?zs = "?ys[unat r := ?ys ! unat r - v]"
  have lr: "unat l \<le> unat r" and rn: "unat r \<le> unat (m_n d)"
    using assms(2,3) by (simp_all add: word_le_nat_alt)
  have inb: "unat l < length ?xs" "unat r < length ?xs"
    using lr rn assms(1) by simp_all
  have call: "DiffArray1D_range_add d l r v = Inr (d\<lparr>m_diff := ?zs\<rparr>)"
    using DiffArray1D_range_add_effect [OF inb] by simp
  have sums: "sum_list (take (Suc k) ?zs)
        = sum_list (take (Suc k) ?xs) + (if unat l \<le> k \<and> k < unat r then v else 0)" for k
  proof -
    have first: "sum_list (take (Suc k) ?ys)
        = sum_list (take (Suc k) ?xs) + (if unat l < Suc k then v else 0)"
      using sum_list_take_update [OF inb(1), of "Suc k" "?xs ! unat l + v"] by simp
    have "unat r < length ?ys"
      using inb(2) by simp
    then have second: "sum_list (take (Suc k) ?zs)
        = sum_list (take (Suc k) ?ys) + (if unat r < Suc k then - v else 0)"
      using sum_list_take_update [of "unat r" ?ys "Suc k" "?ys ! unat r - v"] by simp
    show ?thesis
      using first second lr by (auto simp: algebra_simps)
  qed
  show ?thesis
    using call sums by (intro exI [of _ "d\<lparr>m_diff := ?zs\<rparr>"]) simp
qed

text \<open>A sequence of in-range updates returns, keeps the size and the length of the
  table, and adds to each running sum the values of the updates that cover its
  index.\<close>

lemma DiffArray1D_range_adds_sums:
  fixes d :: "'a::ab_group_add DiffArray1D"
  assumes "length (m_diff d) = unat (m_n d) + 1"
    and "\<forall>(l, r, v)\<in>set us. l \<le> r \<and> r \<le> m_n d"
  shows "\<exists>d'. DiffArray1D_range_adds d us = Inr d' \<and> m_n d' = m_n d
            \<and> length (m_diff d') = length (m_diff d)
            \<and> (\<forall>k. sum_list (take (Suc k) (m_diff d'))
                   = sum_list (take (Suc k) (m_diff d))
                     + sum_list (map (\<lambda>(l, r, v). if unat l \<le> k \<and> k < unat r then v else 0) us))"
  using assms
proof (induction us arbitrary: d)
  case Nil
  then show ?case by simp
next
  case (Cons u us)
  obtain l r v where u: "u = (l, r, v)"
    by (cases u) auto
  have lr: "l \<le> r" "r \<le> m_n d"
    using Cons.prems(2) u by simp_all
  obtain d1 where d1: "DiffArray1D_range_add d l r v = Inr d1" "m_n d1 = m_n d"
    "length (m_diff d1) = length (m_diff d)"
    "\<forall>k. sum_list (take (Suc k) (m_diff d1))
         = sum_list (take (Suc k) (m_diff d)) + (if unat l \<le> k \<and> k < unat r then v else 0)"
    using DiffArray1D_range_add_sums [OF Cons.prems(1) lr, of v] by blast
  have len1: "length (m_diff d1) = unat (m_n d1) + 1"
    using d1(2,3) Cons.prems(1) by simp
  have rest: "\<forall>(l, r, v)\<in>set us. l \<le> r \<and> r \<le> m_n d1"
    using Cons.prems(2) d1(2) by simp
  obtain d' where d': "DiffArray1D_range_adds d1 us = Inr d'" "m_n d' = m_n d1"
    "length (m_diff d') = length (m_diff d1)"
    "\<forall>k. sum_list (take (Suc k) (m_diff d'))
         = sum_list (take (Suc k) (m_diff d1))
           + sum_list (map (\<lambda>(l, r, v). if unat l \<le> k \<and> k < unat r then v else 0) us)"
    using Cons.IH [OF len1 rest] by blast
  have "DiffArray1D_range_adds d (u # us) = Inr d'"
    using u d1(1) d'(1) by simp
  moreover have "sum_list (take (Suc k) (m_diff d'))
         = sum_list (take (Suc k) (m_diff d))
           + sum_list (map (\<lambda>(l, r, v). if unat l \<le> k \<and> k < unat r then v else 0) (u # us))" for k
    using d'(4) d1(4) u by (simp add: add.assoc)
  ultimately show ?case
    using d'(2,3) d1(2,3) by auto
qed

text \<open>\<^verbatim>\<open>reset(n)\<close> with \<open>n < SIZE_MAX\<close> allocates the \<open>n + 1\<close> entries.\<close>

lemma DiffArray1D_reset_allocated:
  assumes "n \<noteq> - 1"
  shows "m_n (DiffArray1D_reset d n) = n"
    and "m_diff (DiffArray1D_reset d n) = replicate (unat n + 1) 0"
  using unat_succ [OF assms] by (simp_all add: DiffArray1D_reset_def)

lemma sum_list_replicate_zero:
  "sum_list (replicate n (0::'a::monoid_add)) = 0"
  by (induction n) simp_all

lemma sum_list_take_replicate_zero:
  "sum_list (take m (replicate n (0::'a::monoid_add))) = 0"
  by (simp only: take_replicate sum_list_replicate_zero)

text \<open>
  \<^bold>\<open>C2\<close> (as amended). For every size \<open>n < SIZE_MAX\<close> and every sequence of
  \<^verbatim>\<open>range_add(l, r, v)\<close> calls with \<open>l \<le> r \<le> n\<close> on a \<^verbatim>\<open>DiffArray1D(n)\<close>, every call
  returns and \<^verbatim>\<open>build()\<close> returns the sequence of length \<open>n\<close> of the brute-force
  reference model; the scenario \<open>n = 5\<close>, \<^verbatim>\<open>range_add(1,4,3)\<close>, \<^verbatim>\<open>range_add(0,2,2)\<close>
  gives \<open>[2,5,3,3,0]\<close>.
\<close>

theorem DiffArray1D_equivalence:
  fixes us :: "(size_t \<times> size_t \<times> 'a::ab_group_add) list"
  shows "(n \<noteq> - 1 \<and> (\<forall>(l, r, v)\<in>set us. l \<le> r \<and> r \<le> n) \<longrightarrow>
            DiffArray1D_apply n us = Inr (brute_force_reference (unat n) us)
          \<and> length (brute_force_reference (unat n) us) = unat n)
       \<and> DiffArray1D_apply 5 [(1, 4, 3), (0, 2, 2)] = Inr [2, 5, 3, 3, 0 :: int]"
proof -
  have general: "DiffArray1D_apply n us = Inr (brute_force_reference (unat n) us)"
    if n: "n \<noteq> - 1" and us: "\<forall>(l, r, v)\<in>set us. l \<le> r \<and> r \<le> n"
  proof -
    let ?d = "DiffArray1D_sized n :: 'a DiffArray1D"
    have n0: "m_n ?d = n" and xs0: "m_diff ?d = replicate (unat n + 1) 0"
      using DiffArray1D_reset_allocated [OF n] by (simp_all add: DiffArray1D_sized_def)
    have len0: "length (m_diff ?d) = unat (m_n ?d) + 1"
      using n0 xs0 by simp
    have us0: "\<forall>(l, r, v)\<in>set us. l \<le> r \<and> r \<le> m_n ?d"
      using us n0 by simp
    obtain d' where d': "DiffArray1D_range_adds ?d us = Inr d'" "m_n d' = m_n ?d"
      "length (m_diff d') = length (m_diff ?d)"
      "\<forall>k. sum_list (take (Suc k) (m_diff d'))
           = sum_list (take (Suc k) (m_diff ?d))
             + sum_list (map (\<lambda>(l, r, v). if unat l \<le> k \<and> k < unat r then v else 0) us)"
      using DiffArray1D_range_adds_sums [OF len0 us0] by blast
    have "unat (m_n d') \<le> length (m_diff d')"
      using d'(2,3) len0 by simp
    then have built: "DiffArray1D_build d' = Inr (running_sums (unat (m_n d')) (m_diff d'))"
      by (rule DiffArray1D_build_sums)
    have "sum_list (take (Suc k) (m_diff d'))
        = sum_list (map (\<lambda>(l, r, v). if unat l \<le> k \<and> k < unat r then v else 0) us)" for k
      using d'(4) by (simp only: xs0 sum_list_take_replicate_zero add_0_left)
    then have "running_sums (unat (m_n d')) (m_diff d') = brute_force_reference (unat n) us"
      using d'(2) n0 by (simp add: running_sums_def brute_force_reference_def)
    with built d'(1) show ?thesis
      by (simp add: DiffArray1D_apply_def)
  qed
  have scenario: "DiffArray1D_apply 5 [(1, 4, 3), (0, 2, 2)] = Inr [2, 5, 3, 3, 0 :: int]"
    by code_simp
  have "length (brute_force_reference (unat n) us) = unat n"
    by (simp add: brute_force_reference_def)
  with general scenario show ?thesis
    by blast
qed

theorem DiffArray1D_equivalence_witness:
  "(6::size_t) \<noteq> - 1
   \<and> (1::size_t) \<le> 5 \<and> (5::size_t) \<le> 6
   \<and> (0::size_t) \<le> 3 \<and> (3::size_t) \<le> 6
   \<and> (2::size_t) \<le> 6 \<and> (6::size_t) \<le> 6
   \<and> DiffArray1D_apply 6 [(1, 5, 5), (0, 3, 2), (2, 6, - 4)] = Inr [2, 7, 3, 1, 1, - 4 :: int]"
proof -
  have reference:
    "brute_force_reference 6 [(1, 5, 5), (0, 3, 2), (2, 6, - 4)] = [2, 7, 3, 1, 1, - 4 :: int]"
    by code_simp
  show ?thesis
    using DiffArray1D_equivalence [of 6 "[(1, 5, 5), (0, 3, 2), (2, 6, - 4 :: int)]"]
    by (simp add: reference)
qed

text \<open>At \<open>n = SIZE_MAX\<close> the sum \<^verbatim>\<open>n_ + 1\<close> wraps to \<open>0\<close>: the constructor leaves the
  table empty, and the in-range call \<^verbatim>\<open>range_add(0, 0, 1)\<close> indexes outside it.\<close>

theorem DiffArray1D_equivalence_counterexample:
  "(0::size_t) \<le> 0 \<and> (0::size_t) \<le> - 1
   \<and> DiffArray1D_diff (DiffArray1D_sized (- 1) :: int DiffArray1D) = []
   \<and> DiffArray1D_apply (- 1) [(0, 0, 1 :: int)] = Inl OutOfBounds
   \<and> DiffArray1D_apply (- 1) [(0, 0, 1 :: int)]
       \<noteq> Inr (brute_force_reference (unat (- 1 :: size_t)) [(0, 0, 1)])"
proof -
  have table: "DiffArray1D_diff (DiffArray1D_sized (- 1) :: int DiffArray1D) = []"
    by (simp add: DiffArray1D_diff_def DiffArray1D_sized_def DiffArray1D_reset_def)
  then have "DiffArray1D_apply (- 1) [(0, 0, 1 :: int)] = Inl OutOfBounds"
    by (simp add: DiffArray1D_apply_def DiffArray1D_range_add_def DiffArray1D_diff_def)
  with table show ?thesis by simp
qed

text \<open>
  \<^bold>\<open>C8\<close> (as amended). For every \<open>n < SIZE_MAX\<close> and every prior state, \<^verbatim>\<open>reset(n)\<close>
  sets \<^verbatim>\<open>size()\<close> to \<open>n\<close> and replaces the table with exactly \<open>n + 1\<close> zeroed
  entries, whatever the updates accumulated before; so does the size constructor.
\<close>

theorem DiffArray1D_reset_zeroed:
  fixes d :: "'a::zero DiffArray1D"
  shows "n \<noteq> - 1 \<Longrightarrow>
     DiffArray1D_size (DiffArray1D_reset d n) = n
   \<and> DiffArray1D_diff (DiffArray1D_reset d n) = replicate (unat n + 1) 0
   \<and> DiffArray1D_size (DiffArray1D_sized n :: 'a DiffArray1D) = n
   \<and> DiffArray1D_diff (DiffArray1D_sized n :: 'a DiffArray1D) = replicate (unat n + 1) 0"
  using unat_succ [of n]
  by (simp add: DiffArray1D_size_def DiffArray1D_diff_def DiffArray1D_sized_def
        DiffArray1D_reset_def)

theorem DiffArray1D_reset_zeroed_witness:
  "(2::size_t) \<noteq> - 1
   \<and> DiffArray1D_size (DiffArray1D_reset \<lparr>m_n = 3, m_diff = [7, 0, - 7, 0 :: int]\<rparr> 2) = 2
   \<and> DiffArray1D_diff (DiffArray1D_reset \<lparr>m_n = 3, m_diff = [7, 0, - 7, 0 :: int]\<rparr> 2) = [0, 0, 0]"
proof -
  have "replicate (unat (2::size_t) + 1) (0::int) = [0, 0, 0]"
    by code_simp
  then show ?thesis
    using DiffArray1D_reset_zeroed [of 2 "\<lparr>m_n = 3, m_diff = [7, 0, - 7, 0 :: int]\<rparr>"]
    by simp
qed

text \<open>\<^verbatim>\<open>reset(SIZE_MAX)\<close>: the size is \<open>SIZE_MAX\<close> and the table has no entry.\<close>

theorem DiffArray1D_reset_zeroed_counterexample:
  "DiffArray1D_size (DiffArray1D_reset (DiffArray1D_default :: int DiffArray1D) (- 1)) = - 1
   \<and> DiffArray1D_diff (DiffArray1D_reset (DiffArray1D_default :: int DiffArray1D) (- 1)) = []
   \<and> length (DiffArray1D_diff (DiffArray1D_reset (DiffArray1D_default :: int DiffArray1D) (- 1)))
       \<noteq> unat (- 1 :: size_t) + 1"
  by (simp add: DiffArray1D_size_def DiffArray1D_diff_def DiffArray1D_reset_def)

text \<open>\<^verbatim>\<open>build()\<close> visits the indices below \<open>n\<close> only: the entry at index \<open>n\<close> has no
  effect on the running sums.\<close>

lemma running_sums_sentinel:
  "running_sums n (xs[n := x]) = running_sums n xs"
  by (simp add: running_sums_def)

lemma running_sums_shift:
  fixes xs ys :: "'a::ab_group_add list"
  assumes "\<forall>k<n. sum_list (take (Suc k) ys) = sum_list (take (Suc k) xs) + v"
  shows "running_sums n ys = map (\<lambda>x. v + x) (running_sums n xs)"
  using assms by (simp add: running_sums_def add.commute)

text \<open>
  \<^bold>\<open>C4\<close> (as amended). For every \<^verbatim>\<open>DiffArray1D\<close> of size \<open>n\<close> whose table holds its
  \<open>n + 1\<close> entries, \<^verbatim>\<open>range_add(0, n, v)\<close> returns and \<^verbatim>\<open>build()\<close> then yields \<open>v\<close>
  plus the element that \<^verbatim>\<open>build()\<close> produced before, at every index; the decrement
  is written to the slot at index \<open>n\<close>, and \<^verbatim>\<open>build()\<close> returns the same whatever
  that slot holds.
\<close>

theorem DiffArray1D_full_range:
  fixes d :: "'a::ab_group_add DiffArray1D"
  assumes "length (DiffArray1D_diff d) = unat (DiffArray1D_size d) + 1"
  shows "\<exists>out d'. DiffArray1D_build d = Inr out
           \<and> DiffArray1D_range_add d 0 (DiffArray1D_size d) v = Inr d'
           \<and> DiffArray1D_build d' = Inr (map (\<lambda>x. v + x) out)
           \<and> DiffArray1D_diff d' =
               (DiffArray1D_diff d)
                 [0 := DiffArray1D_diff d ! 0 + v,
                  unat (DiffArray1D_size d) :=
                    (DiffArray1D_diff d)[0 := DiffArray1D_diff d ! 0 + v]
                      ! unat (DiffArray1D_size d) - v]
           \<and> (\<forall>x. DiffArray1D_build (d'\<lparr>m_diff := (m_diff d')[unat (DiffArray1D_size d) := x]\<rparr>)
                  = DiffArray1D_build d')"
proof -
  let ?n = "unat (m_n d)"
  have len: "length (m_diff d) = ?n + 1"
    using assms by (simp add: DiffArray1D_diff_def DiffArray1D_size_def)
  have before: "DiffArray1D_build d = Inr (running_sums ?n (m_diff d))"
    using len by (intro DiffArray1D_build_sums) simp
  obtain d' where d': "DiffArray1D_range_add d 0 (m_n d) v = Inr d'" "m_n d' = m_n d"
    "length (m_diff d') = length (m_diff d)"
    "\<forall>k. sum_list (take (Suc k) (m_diff d'))
         = sum_list (take (Suc k) (m_diff d))
           + (if unat (0::size_t) \<le> k \<and> k < ?n then v else 0)"
    using DiffArray1D_range_add_sums [OF len, of 0 "m_n d" v] by auto
  have written: "m_diff d' =
      (m_diff d)[0 := m_diff d ! 0 + v,
                 ?n := (m_diff d)[0 := m_diff d ! 0 + v] ! ?n - v]"
  proof -
    have "unat (0::size_t) < length (m_diff d)" "?n < length (m_diff d)"
      using len by simp_all
    from DiffArray1D_range_add_effect [OF this, of v] d'(1) show ?thesis
      by auto
  qed
  have "\<forall>k<?n. sum_list (take (Suc k) (m_diff d')) = sum_list (take (Suc k) (m_diff d)) + v"
    using d'(4) by simp
  then have shifted: "running_sums ?n (m_diff d') = map (\<lambda>x. v + x) (running_sums ?n (m_diff d))"
    by (rule running_sums_shift)
  have after: "DiffArray1D_build d' = Inr (running_sums ?n (m_diff d'))"
    using DiffArray1D_build_sums [of d'] d'(2,3) len by simp
  have sentinel: "DiffArray1D_build (d'\<lparr>m_diff := (m_diff d')[?n := x]\<rparr>) = DiffArray1D_build d'" for x
    using DiffArray1D_build_sums [of "d'\<lparr>m_diff := (m_diff d')[?n := x]\<rparr>"] d'(2,3) len after
    by (simp add: running_sums_sentinel)
  show ?thesis
    using before d'(1) after shifted written sentinel
    by (simp add: DiffArray1D_diff_def DiffArray1D_size_def)
qed

theorem DiffArray1D_full_range_witness:
  "length (DiffArray1D_diff \<lparr>m_n = 3, m_diff = [2, 3, - 1, - 4 :: int]\<rparr>)
     = unat (DiffArray1D_size \<lparr>m_n = 3, m_diff = [2, 3, - 1, - 4 :: int]\<rparr>) + 1
   \<and> DiffArray1D_build \<lparr>m_n = 3, m_diff = [2, 3, - 1, - 4 :: int]\<rparr> = Inr [2, 5, 4]
   \<and> (\<exists>d'. DiffArray1D_range_add \<lparr>m_n = 3, m_diff = [2, 3, - 1, - 4 :: int]\<rparr> 0 3 7 = Inr d'
          \<and> DiffArray1D_build d' = Inr [9, 12, 11]
          \<and> DiffArray1D_diff d' = [9, 3, - 1, - 11])"
proof -
  let ?d = "\<lparr>m_n = 3, m_diff = [2, 3, - 1, - 4 :: int]\<rparr>"
  have len: "length (DiffArray1D_diff ?d) = unat (DiffArray1D_size ?d) + 1"
    by (simp add: DiffArray1D_diff_def DiffArray1D_size_def)
  have before: "DiffArray1D_build ?d = Inr [2, 5, 4]"
    by code_simp
  obtain out d' where d': "DiffArray1D_build ?d = Inr out"
    "DiffArray1D_range_add ?d 0 (DiffArray1D_size ?d) 7 = Inr d'"
    "DiffArray1D_build d' = Inr (map (\<lambda>x. 7 + x) out)"
    "DiffArray1D_diff d' =
       (DiffArray1D_diff ?d)
         [0 := DiffArray1D_diff ?d ! 0 + 7,
          unat (DiffArray1D_size ?d) :=
            (DiffArray1D_diff ?d)[0 := DiffArray1D_diff ?d ! 0 + 7]
              ! unat (DiffArray1D_size ?d) - 7]"
    using DiffArray1D_full_range [OF len, of 7] by blast
  from d'(1) before have out: "out = [2, 5, 4]" by simp
  have "DiffArray1D_range_add ?d 0 3 7 = Inr d'"
    using d'(2) by (simp add: DiffArray1D_size_def)
  moreover have "DiffArray1D_build d' = Inr [9, 12, 11]"
    using d'(3) out by simp
  moreover have "DiffArray1D_diff d' = [9, 3, - 1, - 11]"
    using d'(4) by (simp add: DiffArray1D_diff_def DiffArray1D_size_def)
  ultimately show ?thesis
    using len before by blast
qed

text \<open>After \<^verbatim>\<open>DiffArray1D(SIZE_MAX)\<close> the table is empty, and the full-range update
  \<^verbatim>\<open>range_add(0, size(), 7)\<close> indexes outside it.\<close>

theorem DiffArray1D_full_range_counterexample:
  "DiffArray1D_range_add (DiffArray1D_sized (- 1) :: int DiffArray1D) 0
     (DiffArray1D_size (DiffArray1D_sized (- 1) :: int DiffArray1D)) 7 = Inl OutOfBounds"
  by (simp add: DiffArray1D_range_add_def DiffArray1D_sized_def DiffArray1D_reset_def)

text \<open>In-range updates keep the table allocated: from \<^verbatim>\<open>reset(n)\<close> with
  \<open>n < SIZE_MAX\<close> on, every state has its \<open>n + 1\<close> entries, and there an in-range
  \<^verbatim>\<open>range_add\<close> returns with the two entries changed and nothing else.\<close>

lemma DiffArray1D_range_add_allocated:
  assumes "length (m_diff d) = unat (m_n d) + 1" "l \<le> r" "r \<le> DiffArray1D_size d"
  shows "\<exists>d'. DiffArray1D_range_add d l r v = Inr d'
            \<and> d' = d\<lparr>m_diff := (m_diff d)
                      [unat l := m_diff d ! unat l + v,
                       unat r := (m_diff d)[unat l := m_diff d ! unat l + v] ! unat r - v]\<rparr>
            \<and> m_n d' = m_n d \<and> length (m_diff d') = unat (m_n d') + 1"
proof -
  have "unat l \<le> unat r" "unat r \<le> unat (m_n d)"
    using assms(2,3) by (simp_all add: word_le_nat_alt DiffArray1D_size_def)
  then have "unat l < length (m_diff d)" "unat r < length (m_diff d)"
    using assms(1) by simp_all
  from DiffArray1D_range_add_effect [OF this, of v] assms(1) show ?thesis
    by simp
qed

text \<open>
  \<^bold>\<open>C6.\<close> On the default-constructed \<^verbatim>\<open>DiffArray1D\<close>, \<^verbatim>\<open>size()\<close> is \<open>0\<close> and the
  table is empty: it lacks the slot at index \<open>0\<close> that \<^verbatim>\<open>reset(0)\<close> allocates. The
  call \<^verbatim>\<open>range_add(0, 0, 1)\<close>, whose arguments satisfy \<open>0 \<le> l \<le> r \<le> size()\<close>, reads
  \<^verbatim>\<open>diff_[0]\<close> outside the table.
\<close>

theorem DiffArray1D_default_range_add:
  "(0::size_t) \<le> 0
   \<and> 0 \<le> DiffArray1D_size (DiffArray1D_default :: int DiffArray1D)
   \<and> DiffArray1D_diff (DiffArray1D_default :: int DiffArray1D) = []
   \<and> DiffArray1D_range_add (DiffArray1D_default :: int DiffArray1D) 0 0 1 = Inl OutOfBounds"
  by (simp add: DiffArray1D_range_add_def DiffArray1D_default_def DiffArray1D_size_def
        DiffArray1D_diff_def)

subsection \<open>build() as a read\<close>

text \<open>Dropping the \<^verbatim>\<open>build()\<close> calls from a run that returned leaves a run that returns
  the same object.\<close>

lemma DiffArray1D_run_without_builds:
  "DiffArray1D_run d cs = Inr (d', outs) \<Longrightarrow>
     DiffArray1D_run d (filter (\<lambda>c. \<not> is_Build c) cs) = Inr (d', [])"
proof (induction d cs arbitrary: outs rule: DiffArray1D_run.induct)
  case (1 d)
  then show ?case by simp
next
  case (2 d n cs)
  then show ?case by simp
next
  case (3 d l r delta cs)
  then show ?case by (simp split: sum.splits)
next
  case (4 d cs)
  then show ?case by (auto split: sum.splits prod.splits)
qed

lemma DiffArray1D_run_append:
  "DiffArray1D_run d (cs @ cs') =
     (case DiffArray1D_run d cs of
        Inl e \<Rightarrow> Inl e
      | Inr (d1, outs1) \<Rightarrow>
          (case DiffArray1D_run d1 cs' of
             Inl e \<Rightarrow> Inl e
           | Inr (d2, outs2) \<Rightarrow> Inr (d2, outs1 @ outs2)))"
proof (induction d cs rule: DiffArray1D_run.induct)
  case (1 d)
  then show ?case by (simp split: sum.splits prod.splits)
next
  case (2 d n cs)
  then show ?case by simp
next
  case (3 d l r delta cs)
  then show ?case by (simp split: sum.splits)
next
  case (4 d cs)
  then show ?case by (simp split: sum.splits prod.splits)
qed

text \<open>
  \<^bold>\<open>C5.\<close> \<^verbatim>\<open>build()\<close> is a read. A \<^verbatim>\<open>build()\<close> call that returns leaves the object, its
  table and its size as they were; two calls in a row return the same vector; and in a
  run of any calls that ends with \<^verbatim>\<open>build()\<close>, the \<^verbatim>\<open>build()\<close> calls made on the way
  change neither the final object nor what the final \<^verbatim>\<open>build()\<close> returns.
\<close>

theorem DiffArray1D_build_pure:
  fixes d :: "'a::{zero,plus,minus} DiffArray1D"
  shows "(DiffArray1D_run d [Build] = Inr (d1, outs1) \<longrightarrow>
            d1 = d \<and> DiffArray1D_diff d1 = DiffArray1D_diff d
            \<and> DiffArray1D_size d1 = DiffArray1D_size d)
       \<and> (DiffArray1D_run d [Build, Build] = Inr (d2, outs2) \<longrightarrow>
            d2 = d \<and> (\<exists>out. outs2 = [out, out]))
       \<and> (DiffArray1D_run d (cs @ [Build]) = Inr (d3, outs3) \<longrightarrow>
            DiffArray1D_run d (filter (\<lambda>c. \<not> is_Build c) cs @ [Build]) = Inr (d3, [last outs3]))"
proof -
  have frame: "d1 = d \<and> DiffArray1D_diff d1 = DiffArray1D_diff d
      \<and> DiffArray1D_size d1 = DiffArray1D_size d"
    if "DiffArray1D_run d [Build] = Inr (d1, outs1)"
    using that by (auto split: sum.splits)
  have twice: "d2 = d \<and> (\<exists>out. outs2 = [out, out])"
    if "DiffArray1D_run d [Build, Build] = Inr (d2, outs2)"
    using that by (auto split: sum.splits)
  have interleaved: "DiffArray1D_run d (filter (\<lambda>c. \<not> is_Build c) cs @ [Build])
      = Inr (d3, [last outs3])"
    if run: "DiffArray1D_run d (cs @ [Build]) = Inr (d3, outs3)"
  proof -
    from run obtain d' outs out where parts: "DiffArray1D_run d cs = Inr (d', outs)"
      "DiffArray1D_run d' [Build] = Inr (d3, [out])" "outs3 = outs @ [out]"
      by (auto simp: DiffArray1D_run_append split: sum.splits prod.splits)
    have "DiffArray1D_run d (filter (\<lambda>c. \<not> is_Build c) cs) = Inr (d', [])"
      using parts(1) by (rule DiffArray1D_run_without_builds)
    then have "DiffArray1D_run d (filter (\<lambda>c. \<not> is_Build c) cs @ [Build]) = Inr (d3, [out])"
      using parts(2) by (simp add: DiffArray1D_run_append)
    with parts(3) show ?thesis
      by simp
  qed
  from frame twice interleaved show ?thesis
    by blast
qed

theorem DiffArray1D_build_pure_witness:
  "DiffArray1D_run (DiffArray1D_sized 5) [Build]
     = Inr (DiffArray1D_sized 5, [[0, 0, 0, 0, 0 :: int]])
   \<and> DiffArray1D_run (DiffArray1D_sized 5) [Build, Build]
     = Inr (DiffArray1D_sized 5, [[0, 0, 0, 0, 0 :: int], [0, 0, 0, 0, 0]])
   \<and> DiffArray1D_run (DiffArray1D_sized 5) [RangeAdd 1 4 3, Build, RangeAdd 0 2 2, Build]
     = Inr (\<lparr>m_n = 5, m_diff = [2, 3, - 2, 0, - 3, 0 :: int]\<rparr>, [[0, 3, 3, 3, 0], [2, 5, 3, 3, 0]])
   \<and> DiffArray1D_run (DiffArray1D_sized 5) [RangeAdd 1 4 3, RangeAdd 0 2 2, Build]
     = Inr (\<lparr>m_n = 5, m_diff = [2, 3, - 2, 0, - 3, 0 :: int]\<rparr>, [[2, 5, 3, 3, 0]])"
proof -
  let ?d = "DiffArray1D_sized 5 :: int DiffArray1D"
  let ?d' = "\<lparr>m_n = 5, m_diff = [2, 3, - 2, 0, - 3, 0 :: int]\<rparr>"
  have one: "DiffArray1D_run ?d [Build] = Inr (?d, [[0, 0, 0, 0, 0]])"
    by code_simp
  have two: "DiffArray1D_run ?d [Build, Build] = Inr (?d, [[0, 0, 0, 0, 0], [0, 0, 0, 0, 0]])"
    by code_simp
  have mixed: "DiffArray1D_run ?d ([RangeAdd 1 4 3, Build, RangeAdd 0 2 2] @ [Build])
      = Inr (?d', [[0, 3, 3, 3, 0], [2, 5, 3, 3, 0]])"
    by code_simp
  have "DiffArray1D_run ?d (filter (\<lambda>c. \<not> is_Build c) [RangeAdd 1 4 3, Build, RangeAdd 0 2 2] @ [Build])
      = Inr (?d', [last [[0, 3, 3, 3, 0], [2, 5, 3, 3, 0]]])"
    using DiffArray1D_build_pure [of ?d _ _ _ _ "[RangeAdd 1 4 3, Build, RangeAdd 0 2 2]" ?d'
        "[[0, 3, 3, 3, 0], [2, 5, 3, 3, 0]]"] mixed
    by blast
  then have "DiffArray1D_run ?d [RangeAdd 1 4 3, RangeAdd 0 2 2, Build] = Inr (?d', [[2, 5, 3, 3, 0]])"
    by simp
  with one two mixed show ?thesis by simp
qed

section \<open>The default-constructed PrefixSum1D\<close>

lemma PrefixSum1D_build_empty:
  "PrefixSum1D_build ps [] = Inr (ps\<lparr>m_prefix := [0]\<rparr>)"
  by (simp add: PrefixSum1D_build_def PrefixSum1D_build_loop.simps)

text \<open>After \<^verbatim>\<open>build\<close> of the empty sequence, from any prior state, \<^verbatim>\<open>size()\<close> is
  \<open>0\<close>, \<^verbatim>\<open>prefix()\<close> is the one-entry table \<open>[0]\<close> and \<^verbatim>\<open>range_sum(0, 0)\<close> returns
  \<open>0\<close>.\<close>

lemma PrefixSum1D_built_from_empty:
  "\<exists>b. PrefixSum1D_build (ps :: 'a::ab_group_add PrefixSum1D) [] = Inr b
      \<and> PrefixSum1D_size b = 0
      \<and> PrefixSum1D_prefix b = [0]
      \<and> PrefixSum1D_range_sum b 0 0 = Inr 0"
  by (simp add: PrefixSum1D_build_empty PrefixSum1D_size_def PrefixSum1D_prefix_def
        PrefixSum1D_range_sum_def)

text \<open>
  \<^bold>\<open>C7.\<close> On the default-constructed \<^verbatim>\<open>PrefixSum1D\<close>, \<^verbatim>\<open>size()\<close> is \<open>0\<close> through its
  guard, but \<^verbatim>\<open>prefix()\<close> returns the empty table: not the table of \<open>size() + 1\<close>
  entries, \<open>[0]\<close>, that the object built from the empty sequence holds. The two
  objects are told apart by \<^verbatim>\<open>prefix()\<close>, and by \<^verbatim>\<open>range_sum(0, 0)\<close>, which reads
  outside the empty table on the one and returns \<open>0\<close> on the other.
\<close>

theorem PrefixSum1D_default_not_empty_built:
  "PrefixSum1D_size (PrefixSum1D_default :: int PrefixSum1D) = 0
   \<and> PrefixSum1D_prefix (PrefixSum1D_default :: int PrefixSum1D) = []
   \<and> length (PrefixSum1D_prefix (PrefixSum1D_default :: int PrefixSum1D))
       \<noteq> PrefixSum1D_size (PrefixSum1D_default :: int PrefixSum1D) + 1
   \<and> PrefixSum1D_prefix (PrefixSum1D_default :: int PrefixSum1D) \<noteq> [0]
   \<and> PrefixSum1D_range_sum (PrefixSum1D_default :: int PrefixSum1D) 0 0 \<noteq> Inr 0
   \<and> PrefixSum1D_of ([] :: int list) = Inr \<lparr>m_prefix = [0]\<rparr>
   \<and> PrefixSum1D_size \<lparr>m_prefix = [0 :: int]\<rparr> = 0
   \<and> PrefixSum1D_prefix \<lparr>m_prefix = [0 :: int]\<rparr> = [0]
   \<and> PrefixSum1D_range_sum \<lparr>m_prefix = [0 :: int]\<rparr> 0 0 = Inr 0"
  by (simp add: PrefixSum1D_of_def PrefixSum1D_build_empty PrefixSum1D_size_def
        PrefixSum1D_prefix_def PrefixSum1D_range_sum_def PrefixSum1D_default_def)

text \<open>After \<^verbatim>\<open>build\<close> the empty range at every valid index sums to \<open>0\<close>.\<close>

lemma PrefixSum1D_empty_range_built:
  fixes vs :: "'a::ab_group_add list"
  assumes "PrefixSum1D_build ps0 vs = Inr ps" "i \<le> PrefixSum1D_size ps"
  shows "PrefixSum1D_range_sum ps i i = Inr 0"
  using PrefixSum1D_built_shape(1,2) [OF assms(1)] assms(2)
  by (simp add: PrefixSum1D_range_sum_def)

text \<open>
  \<^bold>\<open>C9.\<close> On the \<^verbatim>\<open>PrefixSum1D\<close> that was never built, \<^verbatim>\<open>size()\<close> is \<open>0\<close>, so
  \<open>i = 0\<close> is a valid index, and \<^verbatim>\<open>range_sum(0, 0)\<close> reads \<^verbatim>\<open>prefix_[0]\<close> of the
  empty table instead of returning \<open>0\<close>.
\<close>

theorem PrefixSum1D_default_range_sum:
  "(0::nat) \<le> PrefixSum1D_size (PrefixSum1D_default :: int PrefixSum1D)
   \<and> PrefixSum1D_prefix (PrefixSum1D_default :: int PrefixSum1D) = []
   \<and> PrefixSum1D_range_sum (PrefixSum1D_default :: int PrefixSum1D) 0 0 = Inl OutOfBounds"
  by (simp add: PrefixSum1D_range_sum_def PrefixSum1D_default_def PrefixSum1D_prefix_def)

end
